theory Spec2Isabelle
  imports Main
begin

section \<open>The task store of \<^verbatim>\<open>main.go\<close>\<close>

text \<open>
  The program keeps its tasks in two package variables, \<^verbatim>\<open>tasks\<close> (a Go map from
  \<^verbatim>\<open>int\<close> to \<^verbatim>\<open>Task\<close>) and \<^verbatim>\<open>nextID\<close>, both guarded by one
  \<^verbatim>\<open>sync.RWMutex\<close>. Every handler touches them only between a lock and its unlock,
  so a handler is modelled as one function from the store before the request to the store
  after it and the response written.

  Task ids and the counter are Go \<^verbatim>\<open>int\<close> values, 64 bits wide on the platforms the
  image is built for. They are modelled as integers, with the two places where the width
  decides the outcome written out: \<^verbatim>\<open>nextID++\<close> wraps from \<open>2 ^ 63 - 1\<close> to
  \<open>- (2 ^ 63)\<close>, and \<^verbatim>\<open>strconv.Atoi\<close> refuses a value outside the range.
\<close>

definition int64 :: "int \<Rightarrow> bool" where
  "int64 x = (- (2 ^ 63) \<le> x \<and> x < 2 ^ 63)"

text \<open>
  The value a 64-bit two's complement \<^verbatim>\<open>int\<close> holds after an operation whose exact
  result is \<open>x\<close>.
\<close>

definition wrap_int :: "int \<Rightarrow> int" where
  "wrap_int x = (x + 2 ^ 63) mod 2 ^ 64 - 2 ^ 63"

record Task =
  ID :: int
  Description :: string
  Done :: bool

record store =
  tasks :: "int \<rightharpoonup> Task"
  nextID :: int

definition init_store :: store where
  "init_store = \<lparr>tasks = Map.empty, nextID = 1\<rparr>"

section \<open>Requests\<close>

text \<open>
  \<^verbatim>\<open>json.NewDecoder(r.Body).Decode(&taskInput)\<close> either returns an error or fills the
  struct from the members the payload carries. The model takes the outcome of decoding:
  \<open>DecodeError\<close>, or the members of the payload, each absent (\<open>None\<close>) or present with
  its value.
\<close>

datatype 'a decoded = DecodeError | Decoded 'a

record create_payload =
  cp_description :: "string option"

record update_payload =
  up_description :: "string option"
  up_done :: "bool option"

text \<open>
  The create handler decodes into \<^verbatim>\<open>struct { Description string }\<close>: a member the
  payload does not carry leaves the field at Go's zero value, the empty string.
\<close>

definition taskInput_Description :: "create_payload \<Rightarrow> string" where
  "taskInput_Description p = (case cp_description p of None \<Rightarrow> [] | Some d \<Rightarrow> d)"

subsection \<open>The path parameter\<close>

text \<open>
  \<^verbatim>\<open>strconv.Atoi\<close> in base 10: an optional sign, then at least one decimal digit and
  nothing else; a value outside the range of a 64-bit \<^verbatim>\<open>int\<close> is an error too.
\<close>

definition digit_of :: "char \<Rightarrow> nat option" where
  "digit_of c =
     (let n = (of_char c :: nat) in if 48 \<le> n \<and> n \<le> 57 then Some (n - 48) else None)"

fun digits_value :: "string \<Rightarrow> nat \<Rightarrow> nat option" where
  "digits_value [] n = Some n"
| "digits_value (c # cs) n =
     (case digit_of c of None \<Rightarrow> None | Some d \<Rightarrow> digits_value cs (n * 10 + d))"

definition Atoi :: "string \<Rightarrow> int option" where
  "Atoi s =
     (case s of
        [] \<Rightarrow> None
      | c # cs \<Rightarrow>
          (let neg = (c = CHR ''-'');
               ds = (if c = CHR ''-'' \<or> c = CHR ''+'' then cs else s)
           in if ds = [] then None
              else (case digits_value ds 0 of
                      None \<Rightarrow> None
                    | Some n \<Rightarrow>
                        (let v = (if neg then - int n else int n)
                         in if - (2 ^ 63) \<le> v \<and> v \<le> 2 ^ 63 - 1 then Some v else None))))"

section \<open>Responses\<close>

text \<open>
  A response is what the handler leaves in its \<^verbatim>\<open>http.ResponseWriter\<close>: the status
  code, the headers set, and the body. The body is either the text that
  \<^verbatim>\<open>http.Error\<close> prints or the value handed to \<^verbatim>\<open>json.NewEncoder(w).Encode\<close>.
\<close>

datatype json =
    JNull
  | JBool bool
  | JNum int
  | JStr string
  | JArr "json list"
  | JObj "(string \<times> json) list"

datatype body = NoBody | Text string | Encoded json

record response =
  status :: nat
  header :: "(string \<times> string) list"
  body :: body

definition new_writer :: response where
  "new_writer = \<lparr>status = 0, header = [], body = NoBody\<rparr>"

fun header_put :: "string \<Rightarrow> string \<Rightarrow> (string \<times> string) list \<Rightarrow> (string \<times> string) list" where
  "header_put k v [] = [(k, v)]"
| "header_put k v ((k', v') # h) = (if k' = k then (k, v) # h else (k', v') # header_put k v h)"

definition Header_Set :: "string \<Rightarrow> string \<Rightarrow> response \<Rightarrow> response" where
  "Header_Set k v w = w\<lparr>header := header_put k v (header w)\<rparr>"

definition Header_Del :: "string \<Rightarrow> response \<Rightarrow> response" where
  "Header_Del k w = w\<lparr>header := filter (\<lambda>kv. fst kv \<noteq> k) (header w)\<rparr>"

definition Header_Get :: "response \<Rightarrow> string \<Rightarrow> string option" where
  "Header_Get w k = map_of (header w) k"

definition WriteHeader :: "nat \<Rightarrow> response \<Rightarrow> response" where
  "WriteHeader code w = w\<lparr>status := code\<rparr>"

definition Encode :: "json \<Rightarrow> response \<Rightarrow> response" where
  "Encode v w = w\<lparr>body := Encoded v\<rparr>"

text \<open>
  \<^verbatim>\<open>http.Error(w, error, code)\<close> of the standard library: it drops any
  \<^verbatim>\<open>Content-Length\<close>, sets \<^verbatim>\<open>Content-Type\<close> to plain text and
  \<^verbatim>\<open>X-Content-Type-Options\<close> to \<^verbatim>\<open>nosniff\<close>, writes the status code and
  prints the message followed by a newline.
\<close>

definition http_Error :: "response \<Rightarrow> string \<Rightarrow> nat \<Rightarrow> response" where
  "http_Error w msg code =
     (WriteHeader code
       (Header_Set ''X-Content-Type-Options'' ''nosniff''
         (Header_Set ''Content-Type'' ''text/plain; charset=utf-8''
           (Header_Del ''Content-Length'' w))))\<lparr>body := Text (msg @ [CHR 0x0A])\<rparr>"

definition StatusOK :: nat where "StatusOK = 200"
definition StatusCreated :: nat where "StatusCreated = 201"
definition StatusNoContent :: nat where "StatusNoContent = 204"
definition StatusBadRequest :: nat where "StatusBadRequest = 400"
definition StatusNotFound :: nat where "StatusNotFound = 404"

text \<open>The struct tags of \<^verbatim>\<open>Task\<close> name the members of its encoding.\<close>

definition task_json :: "Task \<Rightarrow> json" where
  "task_json t =
     JObj [(''id'', JNum (ID t)), (''description'', JStr (Description t)), (''done'', JBool (Done t))]"

text \<open>
  A Go slice is \<^verbatim>\<open>nil\<close> (\<open>None\<close>) or holds elements (\<open>Some xs\<close>, possibly none):
  the encoder prints \<^verbatim>\<open>null\<close> for the first and an array for the second.
\<close>

type_synonym 'a slice = "'a list option"

definition make_slice :: "'a slice" where
  "make_slice = Some []"

fun append_slice :: "'a slice \<Rightarrow> 'a \<Rightarrow> 'a slice" where
  "append_slice None x = Some [x]"
| "append_slice (Some xs) x = Some (xs @ [x])"

fun slice_json :: "Task slice \<Rightarrow> json" where
  "slice_json None = JNull"
| "slice_json (Some xs) = JArr (map task_json xs)"

section \<open>The handlers\<close>

definition msg_invalid_body :: string where
  \<open>msg_invalid_body = ''{"error": "Invalid request body"}''\<close>

definition msg_missing_description :: string where
  \<open>msg_missing_description = ''{"error": "Missing 'description' in request body"}''\<close>

definition msg_invalid_id :: string where
  \<open>msg_invalid_id = ''{"error": "Invalid task ID"}''\<close>

definition msg_not_found :: string where
  \<open>msg_not_found = ''{"error": "Task not found"}''\<close>

definition healthCheckHandler :: "store \<Rightarrow> store \<times> response" where
  "healthCheckHandler s =
     (s, Encode (JObj [(''status'', JStr ''ok'')])
           (WriteHeader StatusOK (Header_Set ''Content-Type'' ''application/json'' new_writer)))"

definition createTaskHandler :: "store \<Rightarrow> create_payload decoded \<Rightarrow> store \<times> response" where
  "createTaskHandler s req =
     (case req of
        DecodeError \<Rightarrow> (s, http_Error new_writer msg_invalid_body StatusBadRequest)
      | Decoded p \<Rightarrow>
          if taskInput_Description p = []
          then (s, http_Error new_writer msg_missing_description StatusBadRequest)
          else
            (let newTask = \<lparr>ID = nextID s, Description = taskInput_Description p, Done = False\<rparr>
             in (s\<lparr>tasks := (tasks s)(nextID s \<mapsto> newTask),
                   nextID := wrap_int (nextID s + 1)\<rparr>,
                 Encode (task_json newTask)
                   (WriteHeader StatusCreated
                     (Header_Set ''Content-Type'' ''application/json'' new_writer)))))"

text \<open>
  \<^verbatim>\<open>for _, task := range tasks\<close> visits every entry of the map once, in an order the
  runtime chooses. The order is a parameter of the model: the list of keys as the
  iteration meets them.
\<close>

fun range_tasks :: "(int \<rightharpoonup> Task) \<Rightarrow> int list \<Rightarrow> Task slice \<Rightarrow> Task slice" where
  "range_tasks m [] taskList = taskList"
| "range_tasks m (k # ks) taskList =
     (case m k of
        None \<Rightarrow> range_tasks m ks taskList
      | Some task \<Rightarrow> range_tasks m ks (append_slice taskList task))"

definition getTasksHandler :: "store \<Rightarrow> int list \<Rightarrow> store \<times> response" where
  "getTasksHandler s order =
     (let taskList = range_tasks (tasks s) order make_slice
      in (s, Encode (slice_json taskList)
               (WriteHeader StatusOK (Header_Set ''Content-Type'' ''application/json'' new_writer))))"

definition getTaskHandler :: "store \<Rightarrow> string \<Rightarrow> store \<times> response" where
  "getTaskHandler s idStr =
     (case Atoi idStr of
        None \<Rightarrow> (s, http_Error new_writer msg_invalid_id StatusBadRequest)
      | Some id' \<Rightarrow>
          (case tasks s id' of
             None \<Rightarrow> (s, http_Error new_writer msg_not_found StatusNotFound)
           | Some task \<Rightarrow>
               (s, Encode (task_json task)
                     (WriteHeader StatusOK
                       (Header_Set ''Content-Type'' ''application/json'' new_writer)))))"

definition updateTaskHandler :: "store \<Rightarrow> string \<Rightarrow> update_payload decoded \<Rightarrow> store \<times> response" where
  "updateTaskHandler s idStr req =
     (case Atoi idStr of
        None \<Rightarrow> (s, http_Error new_writer msg_invalid_id StatusBadRequest)
      | Some id' \<Rightarrow>
          (case req of
             DecodeError \<Rightarrow> (s, http_Error new_writer msg_invalid_body StatusBadRequest)
           | Decoded p \<Rightarrow>
               (case tasks s id' of
                  None \<Rightarrow> (s, http_Error new_writer msg_not_found StatusNotFound)
                | Some task \<Rightarrow>
                    (let task1 = (case up_description p of
                                    None \<Rightarrow> task
                                  | Some d \<Rightarrow> task\<lparr>Description := d\<rparr>);
                         task2 = (case up_done p of
                                    None \<Rightarrow> task1
                                  | Some b \<Rightarrow> task1\<lparr>Done := b\<rparr>)
                     in (s\<lparr>tasks := (tasks s)(id' \<mapsto> task2)\<rparr>,
                         Encode (task_json task2)
                           (WriteHeader StatusOK
                             (Header_Set ''Content-Type'' ''application/json'' new_writer)))))))"

definition deleteTaskHandler :: "store \<Rightarrow> string \<Rightarrow> store \<times> response" where
  "deleteTaskHandler s idStr =
     (case Atoi idStr of
        None \<Rightarrow> (s, http_Error new_writer msg_invalid_id StatusBadRequest)
      | Some id' \<Rightarrow>
          (case tasks s id' of
             None \<Rightarrow> (s, http_Error new_writer msg_not_found StatusNotFound)
           | Some _ \<Rightarrow>
               (s\<lparr>tasks := (tasks s)(id' := None)\<rparr>, WriteHeader StatusNoContent new_writer)))"

section \<open>Runs of the service\<close>

text \<open>
  The routes of \<^verbatim>\<open>main\<close>. A request carries what its handler reads: the decoded
  payload, the \<^verbatim>\<open>taskID\<close> segment of the path, and for the listing the order in
  which the map is traversed.
\<close>

datatype request =
    Healthz
  | PostTask "create_payload decoded"
  | GetTasks "int list"
  | GetTask string
  | PutTask string "update_payload decoded"
  | DeleteTask string

fun serve :: "store \<Rightarrow> request \<Rightarrow> store \<times> response" where
  "serve s Healthz = healthCheckHandler s"
| "serve s (PostTask req) = createTaskHandler s req"
| "serve s (GetTasks order) = getTasksHandler s order"
| "serve s (GetTask idStr) = getTaskHandler s idStr"
| "serve s (PutTask idStr req) = updateTaskHandler s idStr req"
| "serve s (DeleteTask idStr) = deleteTaskHandler s idStr"

fun run :: "store \<Rightarrow> request list \<Rightarrow> store \<times> response list" where
  "run s [] = (s, [])"
| "run s (r # rs) =
     (case serve s r of (s1, resp) \<Rightarrow>
        (case run s1 rs of (s2, resps) \<Rightarrow> (s2, resp # resps)))"

section \<open>What a client observes\<close>

text \<open>The id a client reads from the body of a \<^verbatim>\<open>201 Created\<close> response.\<close>

fun json_id :: "json \<Rightarrow> int option" where
  "json_id (JObj kvs) = (case map_of kvs ''id'' of Some (JNum i) \<Rightarrow> Some i | _ \<Rightarrow> None)"
| "json_id _ = None"

definition created_id :: "response \<Rightarrow> int option" where
  "created_id r =
     (if status r = StatusCreated
      then (case body r of Encoded v \<Rightarrow> json_id v | _ \<Rightarrow> None)
      else None)"

definition created_ids :: "response list \<Rightarrow> int list" where
  "created_ids resps = List.map_filter created_id resps"

definition is_2xx :: "nat \<Rightarrow> bool" where
  "is_2xx code = (200 \<le> code \<and> code < 300)"

text \<open>The four error bodies, as the text of a JSON object with the one member \<^verbatim>\<open>error\<close>.\<close>

definition error_object :: "string \<Rightarrow> string" where
  \<open>error_object msg = ''{"error": "'' @ msg @ ''"}''\<close>

text \<open>Invariants of the store.\<close>

definition descriptions_nonempty :: "store \<Rightarrow> bool" where
  "descriptions_nonempty s = (\<forall>k t. tasks s k = Some t \<longrightarrow> Description t \<noteq> [])"

definition keyed_by_id :: "store \<Rightarrow> bool" where
  "keyed_by_id s = (\<forall>k t. tasks s k = Some t \<longrightarrow> ID t = k)"

text \<open>
  A request that, served from store \<open>s\<close>, writes an empty description into a task: an
  update whose path names a task that \<open>s\<close> holds and whose payload decodes and carries
  the empty string as description.
\<close>

fun stores_empty_description :: "store \<Rightarrow> request \<Rightarrow> bool" where
  "stores_empty_description s (PutTask idStr (Decoded p)) =
     (up_description p = Some [] \<and>
      (case Atoi idStr of None \<Rightarrow> False | Some i \<Rightarrow> tasks s i \<noteq> None))"
| "stores_empty_description s _ = False"

text \<open>No request of the run is such a request at the store it is served from.\<close>

fun no_empty_update :: "store \<Rightarrow> request list \<Rightarrow> bool" where
  "no_empty_update s [] = True"
| "no_empty_update s (r # rs) =
     (\<not> stores_empty_description s r \<and> no_empty_update (fst (serve s r)) rs)"

text \<open>A request that creates a task: a decoded payload whose description is not empty.\<close>

fun creates :: "request \<Rightarrow> bool" where
  "creates (PostTask (Decoded p)) = (taskInput_Description p \<noteq> [])"
| "creates _ = False"

section \<open>Unfolding the handlers\<close>

lemmas writer_defs =
  new_writer_def Header_Set_def Header_Del_def Header_Get_def WriteHeader_def Encode_def
  http_Error_def StatusOK_def StatusCreated_def StatusNoContent_def StatusBadRequest_def
  StatusNotFound_def

lemmas handler_defs =
  healthCheckHandler_def createTaskHandler_def getTasksHandler_def getTaskHandler_def
  updateTaskHandler_def deleteTaskHandler_def taskInput_Description_def

section \<open>Arithmetic of the counter\<close>

lemma wrap_int_id: "int64 x \<Longrightarrow> wrap_int x = x"
  by (simp add: wrap_int_def int64_def)

lemma wrap_int_max: "wrap_int (2 ^ 63) = - (2 ^ 63)"
  by (simp add: wrap_int_def)

lemma wrap_int_range: "int64 (wrap_int x)"
  by (simp add: wrap_int_def int64_def)

section \<open>Keys and ids\<close>

text \<open>Every request keeps the store keyed by id: a task sits under its own \<open>ID\<close>.\<close>

lemma fst_run_Cons: "fst (run s (r # rs)) = fst (run (fst (serve s r)) rs)"
  by (simp split: prod.splits)

lemma update_keeps_ID:
  "ID (case b of None \<Rightarrow> (case a of None \<Rightarrow> t | Some d \<Rightarrow> t\<lparr>Description := d\<rparr>)
        | Some x \<Rightarrow> (case a of None \<Rightarrow> t | Some d \<Rightarrow> t\<lparr>Description := d\<rparr>)\<lparr>Done := x\<rparr>) = ID t"
  by (cases a; cases b) simp_all

lemma serve_keyed_by_id:
  assumes "keyed_by_id s"
  shows "keyed_by_id (fst (serve s r))"
proof (cases r)
  case (PostTask req)
  with assms show ?thesis
    by (cases req)
       (auto simp: createTaskHandler_def keyed_by_id_def Let_def)
next
  case (PutTask idStr req)
  with assms show ?thesis
    by (cases req; cases "Atoi idStr")
       (auto simp: updateTaskHandler_def keyed_by_id_def Let_def update_keeps_ID
          split: option.splits)
next
  case (DeleteTask idStr)
  with assms show ?thesis
    by (auto simp: deleteTaskHandler_def keyed_by_id_def split: option.splits)
qed (use assms in \<open>auto simp: healthCheckHandler_def getTasksHandler_def getTaskHandler_def Let_def
       split: option.splits\<close>)

lemma run_keyed_by_id: "keyed_by_id s \<Longrightarrow> keyed_by_id (fst (run s rs))"
proof (induction rs arbitrary: s)
  case Nil
  then show ?case by simp
next
  case (Cons r rs)
  from Cons.IH [OF serve_keyed_by_id [OF Cons.prems, of r]] show ?case
    by (simp add: fst_run_Cons del: run.simps)
qed

lemma init_keyed_by_id: "keyed_by_id init_store"
  by (simp add: keyed_by_id_def init_store_def)

section \<open>Identifier assignment\<close>

text \<open>
  One request either creates a task, answers with the counter's value as the new id and
  increments the counter as a 64-bit \<^verbatim>\<open>int\<close>, or leaves the counter alone and answers
  with no new id.
\<close>

lemma serve_created_id:
  "serve s r = (s1, resp) \<Longrightarrow>
     (\<not> creates r \<and> created_id resp = None \<and> nextID s1 = nextID s) \<or>
     (creates r \<and> created_id resp = Some (nextID s) \<and> nextID s1 = wrap_int (nextID s + 1))"
  by (cases r)
     (auto simp: healthCheckHandler_def createTaskHandler_def getTasksHandler_def
        getTaskHandler_def updateTaskHandler_def deleteTaskHandler_def created_id_def
        task_json_def writer_defs Let_def
      split: decoded.splits option.splits if_splits)

lemma run_created_count:
  "run s rs = (s', resps) \<Longrightarrow> length (created_ids resps) = length (filter creates rs)"
proof (induction rs arbitrary: s s' resps)
  case Nil
  then show ?case by (simp add: created_ids_def List.map_filter_simps)
next
  case (Cons r rs)
  obtain s1 resp where step: "serve s r = (s1, resp)" by force
  obtain s2 rest where tail: "run s1 rs = (s2, rest)" by force
  from Cons.prems step tail have eqs: "resps = resp # rest" by auto
  from Cons.IH [OF tail] serve_created_id [OF step] eqs show ?case
    by (auto simp: created_ids_def List.map_filter_simps)
qed

text \<open>
  As long as the counter does not pass \<open>2 ^ 63 - 1\<close> before the last creation, the ids
  handed out are consecutive from the counter's value.
\<close>

lemma run_created_ids:
  assumes "run s rs = (s', resps)"
    and "int64 (nextID s)"
    and "nextID s + int (length (filter creates rs)) \<le> 2 ^ 63"
  shows "created_ids resps = [nextID s .. nextID s + int (length (filter creates rs)) - 1] \<and>
         nextID s' = wrap_int (nextID s + int (length (filter creates rs)))"
  using assms
proof (induction rs arbitrary: s s' resps)
  case Nil
  then show ?case by (simp add: created_ids_def List.map_filter_simps wrap_int_id)
next
  case (Cons r rs)
  obtain s1 resp where step: "serve s r = (s1, resp)" by force
  obtain s2 rest where tail: "run s1 rs = (s2, rest)" by force
  from Cons.prems(1) step tail have eqs: "s' = s2" "resps = resp # rest" by auto
  let ?c = "length (filter creates rs)"
  from serve_created_id [OF step] show ?case
  proof
    assume a: "\<not> creates r \<and> created_id resp = None \<and> nextID s1 = nextID s"
    with Cons.prems have "int64 (nextID s1)" "nextID s1 + int ?c \<le> 2 ^ 63" by simp_all
    from Cons.IH [OF tail this] a eqs show ?thesis
      by (simp add: created_ids_def List.map_filter_simps)
  next
    assume a: "creates r \<and> created_id resp = Some (nextID s) \<and> nextID s1 = wrap_int (nextID s + 1)"
    then have c: "created_ids resps = nextID s # created_ids rest"
      using eqs by (simp add: created_ids_def List.map_filter_simps)
    from a Cons.prems(3) have bound: "nextID s + 1 + int ?c \<le> 2 ^ 63" by simp
    have r1: "int64 (nextID s1)" using a by (simp add: wrap_int_range)
    show ?thesis
    proof (cases "?c = 0")
      case True
      with run_created_count [OF tail] have "created_ids rest = []" by simp
      moreover from r1 True have "nextID s1 + int ?c \<le> 2 ^ 63" by (simp add: int64_def)
      from Cons.IH [OF tail r1 this] True r1 have "nextID s2 = nextID s1"
        by (simp add: wrap_int_id)
      ultimately show ?thesis using a c eqs True by simp
    next
      case False
      then have "0 < ?c" by blast
      then have "1 \<le> int ?c" by linarith
      with bound Cons.prems(2) have "int64 (nextID s + 1)"
        unfolding int64_def by linarith
      with a have n1: "nextID s1 = nextID s + 1" by (simp add: wrap_int_id)
      with bound have "nextID s1 + int ?c \<le> 2 ^ 63" by simp
      from Cons.IH [OF tail r1 this] n1
      have ih: "created_ids rest = [nextID s + 1 .. nextID s + int ?c]"
        "nextID s2 = wrap_int (nextID s + 1 + int ?c)"
        by (simp_all add: algebra_simps)
      from ih(1) have "nextID s # created_ids rest = [nextID s .. nextID s + int ?c]"
        by (simp add: upto_rec1 [of "nextID s"])
      with c ih(2) a eqs show ?thesis by (simp add: algebra_simps)
    qed
  qed
qed

lemma run_append:
  "run s (xs @ ys) =
     (case run s xs of (s1, r1) \<Rightarrow> (case run s1 ys of (s2, r2) \<Rightarrow> (s2, r1 @ r2)))"
  by (induction xs arbitrary: s) (simp_all split: prod.splits)

lemma created_ids_append: "created_ids (xs @ ys) = created_ids xs @ created_ids ys"
  by (simp add: created_ids_def List.map_filter_def)

text \<open>
  The run of \<open>2 ^ 63\<close> creations from the initial store: the first \<open>2 ^ 63 - 1\<close> get
  the ids from 1 on, the increment after the last of them wraps, and the next creation
  gets the id \<open>- (2 ^ 63)\<close>.
\<close>

lemma replicate_creates_wrap:
  assumes "d \<noteq> []" and "int n = 2 ^ 63"
  shows "created_ids (snd (run init_store
           (replicate n (PostTask (Decoded \<lparr>cp_description = Some d\<rparr>))))) =
         [1 .. 2 ^ 63 - 1] @ [- (2 ^ 63)]"
proof -
  let ?C = "PostTask (Decoded \<lparr>cp_description = Some d\<rparr>)"
  from assms(2) obtain m where n: "n = Suc m" by (cases n) simp_all
  with assms(2) have m: "int m = 2 ^ 63 - 1" by simp
  have cr: "creates ?C" using assms(1) by (simp add: taskInput_Description_def)
  then have cnt: "length (filter creates (replicate m ?C)) = m" by simp
  obtain s1 r1 where run1: "run init_store (replicate m ?C) = (s1, r1)" by force
  have "int64 (nextID init_store)" by (simp add: int64_def init_store_def)
  moreover have "nextID init_store + int (length (filter creates (replicate m ?C))) \<le> 2 ^ 63"
    using m by (simp only: cnt) (simp add: init_store_def)
  ultimately have "created_ids r1 = [nextID init_store .. nextID init_store + int m - 1] \<and>
      nextID s1 = wrap_int (nextID init_store + int m)"
    using run_created_ids [OF run1] by (simp only: cnt) 
  with m have ids1: "created_ids r1 = [1 .. 2 ^ 63 - 1]" and nx1: "nextID s1 = - (2 ^ 63)"
    by (simp_all add: init_store_def wrap_int_def)
  obtain s2 resp where step: "serve s1 ?C = (s2, resp)" by force
  from serve_created_id [OF step] cr nx1 have last: "created_id resp = Some (- (2 ^ 63))"
    by auto
  have "replicate n ?C = replicate m ?C @ [?C]"
    by (simp only: n replicate_Suc replicate_append_same)
  then have "run init_store (replicate n ?C) = (s2, r1 @ [resp])"
    using run1 step by (simp add: run_append)
  then have "created_ids (snd (run init_store (replicate n ?C))) = created_ids r1 @ created_ids [resp]"
    by (simp add: created_ids_append)
  with ids1 last show ?thesis by (simp add: created_ids_def List.map_filter_simps)
qed

text \<open>
  C1, as the code has it. Take any sequence of requests served from the initial empty
  store, with updates, deletions and failed requests between the creations, and let
  \<open>n\<close> be the number of \<^verbatim>\<open>201 Created\<close> responses, with \<open>n < 2 ^ 63\<close>. The ids in
  those responses, in the order of creation, are exactly \<open>1, 2, ..., n\<close>: strictly
  increasing and never repeated, so the id of a deleted task is not assigned again.
  \<open>n\<close> is the number of creating requests, every task left in the store sits under its
  own id, and the counter ends at \<open>n + 1\<close> as a 64-bit \<^verbatim>\<open>int\<close>: at \<open>n + 1\<close> itself
  when \<open>n < 2 ^ 63 - 1\<close>. No request of any kind, from any store, lowers the counter,
  with one exception: from a store whose counter is \<open>2 ^ 63 - 1\<close> a creation wraps it
  to \<open>- (2 ^ 63)\<close>.
\<close>

theorem create_ids_sequential:
  assumes "run init_store rs = (s, resps)"
    and "length (created_ids resps) = n"
    and "n < 2 ^ 63"
  shows "created_ids resps = [1 .. int n] \<and>
         sorted_wrt (<) (created_ids resps) \<and>
         distinct (created_ids resps) \<and>
         nextID s = wrap_int (int n + 1) \<and>
         (n < 2 ^ 63 - 1 \<longrightarrow> nextID s = int n + 1) \<and>
         n = length (filter creates rs) \<and>
         keyed_by_id s \<and>
         (int64 (nextID s0) \<and> \<not> (nextID s0 = 2 ^ 63 - 1 \<and> creates r) \<longrightarrow>
            nextID s0 \<le> nextID (fst (serve s0 r))) \<and>
         (nextID s0 = 2 ^ 63 - 1 \<and> creates r \<longrightarrow> nextID (fst (serve s0 r)) = - (2 ^ 63))"
proof -
  from run_created_count [OF assms(1)] assms(2)
  have cnt: "n = length (filter creates rs)" by simp
  have i1: "int64 (nextID init_store)" by (simp add: int64_def init_store_def)
  from assms(3) have "int n < 2 ^ 63" by (simp add: of_nat_less_iff [of n "2 ^ 63", symmetric] del: of_nat_less_iff)
  then have i2: "nextID init_store + int (length (filter creates rs)) \<le> 2 ^ 63"
    using cnt by (simp add: init_store_def)
  from run_created_ids [OF assms(1) i1 i2] cnt
  have ids: "created_ids resps = [1 .. int n]" and nxt: "nextID s = wrap_int (int n + 1)"
    by (simp_all add: init_store_def algebra_simps)
  have nxt': "n < 2 ^ 63 - 1 \<longrightarrow> nextID s = int n + 1"
  proof
    assume "n < 2 ^ 63 - 1"
    then have "int n < 2 ^ 63 - 1"
      by (simp add: of_nat_less_iff [of n "2 ^ 63 - 1", symmetric] del: of_nat_less_iff)
    then have "int64 (int n + 1)" by (simp add: int64_def)
    with nxt show "nextID s = int n + 1" by (simp add: wrap_int_id)
  qed
  have mono: "int64 (nextID s0) \<and> \<not> (nextID s0 = 2 ^ 63 - 1 \<and> creates r) \<longrightarrow>
      nextID s0 \<le> nextID (fst (serve s0 r))"
  proof
    assume a: "int64 (nextID s0) \<and> \<not> (nextID s0 = 2 ^ 63 - 1 \<and> creates r)"
    show "nextID s0 \<le> nextID (fst (serve s0 r))"
    proof (cases "creates r")
      case True
      with a have "int64 (nextID s0 + 1)" by (simp add: int64_def)
      then have "wrap_int (nextID s0 + 1) = nextID s0 + 1" by (rule wrap_int_id)
      with serve_created_id [of s0 r "fst (serve s0 r)" "snd (serve s0 r)"]
      show ?thesis by auto
    next
      case False
      with serve_created_id [of s0 r "fst (serve s0 r)" "snd (serve s0 r)"]
      show ?thesis by auto
    qed
  qed
  have wraps: "nextID s0 = 2 ^ 63 - 1 \<and> creates r \<longrightarrow> nextID (fst (serve s0 r)) = - (2 ^ 63)"
    using serve_created_id [of s0 r "fst (serve s0 r)" "snd (serve s0 r)"]
    by (auto simp: wrap_int_def)
  have keyed: "keyed_by_id s"
    using run_keyed_by_id [OF init_keyed_by_id, of rs] assms(1) by simp
  have "sorted_wrt (<) [1 .. int n]" by (simp add: sorted_wrt_upto)
  with ids nxt nxt' cnt keyed mono wraps show ?thesis by simp
qed

text \<open>
  An instance: a task is created, deleted, and another is created. The second task gets
  id 2, not the freed id 1, and the counter moves from 1 to 2 at the first creation.
\<close>

theorem create_ids_sequential_witness:
  "run init_store
     [PostTask (Decoded \<lparr>cp_description = Some ''a''\<rparr>), DeleteTask ''1'',
      PostTask (Decoded \<lparr>cp_description = Some ''b''\<rparr>)] =
     (\<lparr>tasks = [2 \<mapsto> \<lparr>ID = 2, Description = ''b'', Done = False\<rparr>], nextID = 3\<rparr>,
      [Encode (task_json \<lparr>ID = 1, Description = ''a'', Done = False\<rparr>)
         (WriteHeader 201 (Header_Set ''Content-Type'' ''application/json'' new_writer)),
       WriteHeader 204 new_writer,
       Encode (task_json \<lparr>ID = 2, Description = ''b'', Done = False\<rparr>)
         (WriteHeader 201 (Header_Set ''Content-Type'' ''application/json'' new_writer))]) \<and>
   length (created_ids
     [Encode (task_json \<lparr>ID = 1, Description = ''a'', Done = False\<rparr>)
        (WriteHeader 201 (Header_Set ''Content-Type'' ''application/json'' new_writer)),
      WriteHeader 204 new_writer,
      Encode (task_json \<lparr>ID = 2, Description = ''b'', Done = False\<rparr>)
        (WriteHeader 201 (Header_Set ''Content-Type'' ''application/json'' new_writer))]) = 2 \<and>
   (2 :: nat) < 2 ^ 63 \<and>
   created_ids
     [Encode (task_json \<lparr>ID = 1, Description = ''a'', Done = False\<rparr>)
        (WriteHeader 201 (Header_Set ''Content-Type'' ''application/json'' new_writer)),
      WriteHeader 204 new_writer,
      Encode (task_json \<lparr>ID = 2, Description = ''b'', Done = False\<rparr>)
        (WriteHeader 201 (Header_Set ''Content-Type'' ''application/json'' new_writer))] = [1, 2] \<and>
   int64 (nextID init_store) \<and> nextID init_store \<noteq> 2 ^ 63 - 1 \<and>
   nextID init_store \<le>
     nextID (fst (serve init_store (PostTask (Decoded \<lparr>cp_description = Some ''a''\<rparr>))))"
proof -
  let ?rs = "[PostTask (Decoded \<lparr>cp_description = Some ''a''\<rparr>), DeleteTask ''1'',
      PostTask (Decoded \<lparr>cp_description = Some ''b''\<rparr>)]"
  let ?resps = "[Encode (task_json \<lparr>ID = 1, Description = ''a'', Done = False\<rparr>)
        (WriteHeader 201 (Header_Set ''Content-Type'' ''application/json'' new_writer)),
      WriteHeader 204 new_writer,
      Encode (task_json \<lparr>ID = 2, Description = ''b'', Done = False\<rparr>)
        (WriteHeader 201 (Header_Set ''Content-Type'' ''application/json'' new_writer))]"
  let ?s = "\<lparr>tasks = [2 \<mapsto> \<lparr>ID = 2, Description = ''b'', Done = False\<rparr>], nextID = 3\<rparr>"
  have r: "run init_store ?rs = (?s, ?resps)"
    by (simp add: init_store_def handler_defs writer_defs Atoi_def digit_of_def Let_def
          wrap_int_def)
  have n: "length (created_ids ?resps) = 2"
    by (simp add: created_ids_def created_id_def List.map_filter_simps task_json_def writer_defs)
  have b: "(2 :: nat) < 2 ^ 63" by simp
  have i: "int64 (nextID init_store) \<and> nextID init_store \<noteq> 2 ^ 63 - 1"
    by (simp add: int64_def init_store_def)
  note inst = create_ids_sequential [OF r n b, of init_store
      "PostTask (Decoded \<lparr>cp_description = Some ''a''\<rparr>)"]
  from inst have "created_ids ?resps = [1 .. int 2]" by blast
  then have ids: "created_ids ?resps = [1, 2]" by (simp add: upto_rec1)
  from inst i have "nextID init_store \<le>
     nextID (fst (serve init_store (PostTask (Decoded \<lparr>cp_description = Some ''a''\<rparr>))))"
    by blast
  with r n b ids i show ?thesis by blast
qed

text \<open>
  C1 as the claim states it, for every \<open>n\<close>, fails at \<open>n = 2 ^ 63\<close>: of \<open>2 ^ 63\<close>
  creations served from the initial store the last one is assigned \<open>- (2 ^ 63)\<close>, not
  \<open>2 ^ 63\<close>, because \<^verbatim>\<open>nextID++\<close> at \<open>2 ^ 63 - 1\<close> wraps; and that increment lowers
  the counter.
\<close>

theorem create_ids_wrap:
  "created_ids (snd (run init_store
     (replicate (2 ^ 63) (PostTask (Decoded \<lparr>cp_description = Some ''a''\<rparr>))))) =
     [1 .. 2 ^ 63 - 1] @ [- (2 ^ 63)] \<and>
   nextID (fst (serve \<lparr>tasks = Map.empty, nextID = 2 ^ 63 - 1\<rparr>
                  (PostTask (Decoded \<lparr>cp_description = Some ''a''\<rparr>)))) = - (2 ^ 63)"
proof -
  have a: "''a'' \<noteq> []" by simp
  have b: "int (2 ^ 63) = 2 ^ 63" by simp
  have c: "nextID (fst (serve \<lparr>tasks = Map.empty, nextID = 2 ^ 63 - 1\<rparr>
                  (PostTask (Decoded \<lparr>cp_description = Some ''a''\<rparr>)))) = - (2 ^ 63)"
    by (simp add: createTaskHandler_def taskInput_Description_def Let_def wrap_int_def)
  from replicate_creates_wrap [OF a b] c show ?thesis by (rule conjI)
qed

section \<open>Partial update\<close>

text \<open>
  C2. For a task \<open>t\<close> stored under the id of the path and any decoded payload, the update
  handler answers \<^verbatim>\<open>200\<close> with the task it stores back under the same key: its
  description is the payload's when the payload carries one (the empty string included)
  and \<open>t\<close>'s otherwise, its done flag is the payload's when the payload carries one
  (\<open>False\<close> included) and \<open>t\<close>'s otherwise, and its id is \<open>t\<close>'s. Nothing else in the
  store changes.
\<close>

theorem update_replaces_present_fields:
  assumes "Atoi idStr = Some i" and "tasks s i = Some t"
  shows "updateTaskHandler s idStr (Decoded p) =
           (let t' = \<lparr>ID = ID t,
                       Description = (case up_description p of None \<Rightarrow> Description t | Some d \<Rightarrow> d),
                       Done = (case up_done p of None \<Rightarrow> Done t | Some b \<Rightarrow> b)\<rparr>
            in (s\<lparr>tasks := (tasks s)(i \<mapsto> t')\<rparr>,
                \<lparr>status = 200, header = [(''Content-Type'', ''application/json'')],
                 body = Encoded (task_json t')\<rparr>))"
  using assms
  by (cases t; cases "up_description p"; cases "up_done p")
     (simp_all add: updateTaskHandler_def writer_defs Let_def)

text \<open>
  An instance: a finished task whose description is replaced by the empty string keeps
  its done flag and its id.
\<close>

theorem update_replaces_present_fields_witness:
  "Atoi ''1'' = Some 1 \<and>
   tasks \<lparr>tasks = [1 \<mapsto> \<lparr>ID = 1, Description = ''Original'', Done = True\<rparr>], nextID = 2\<rparr> 1 =
     Some \<lparr>ID = 1, Description = ''Original'', Done = True\<rparr> \<and>
   updateTaskHandler
     \<lparr>tasks = [1 \<mapsto> \<lparr>ID = 1, Description = ''Original'', Done = True\<rparr>], nextID = 2\<rparr> ''1''
     (Decoded \<lparr>up_description = Some [], up_done = None\<rparr>) =
     (\<lparr>tasks = [1 \<mapsto> \<lparr>ID = 1, Description = [], Done = True\<rparr>], nextID = 2\<rparr>,
      \<lparr>status = 200, header = [(''Content-Type'', ''application/json'')],
       body = Encoded (task_json \<lparr>ID = 1, Description = [], Done = True\<rparr>)\<rparr>)"
proof -
  have a: "Atoi ''1'' = Some 1" by (simp add: Atoi_def digit_of_def)
  have b: "tasks \<lparr>tasks = [1 \<mapsto> \<lparr>ID = 1, Description = ''Original'', Done = True\<rparr>], nextID = 2\<rparr> 1 =
     Some \<lparr>ID = 1, Description = ''Original'', Done = True\<rparr>" by simp
  from update_replaces_present_fields [OF a b, of "\<lparr>up_description = Some [], up_done = None\<rparr>"] a b
  show ?thesis by (simp add: Let_def)
qed

section \<open>Unknown ids\<close>

text \<open>
  C3. When no task is stored under the id of the path, the update handler (for any
  decoded payload) and the delete handler both answer \<^verbatim>\<open>404\<close> with the not-found
  error and return the store as it was, map and counter alike. The update handler leaves
  the store as it was whatever the payload, malformed ones included.
\<close>

theorem missing_id_no_mutation:
  assumes "Atoi idStr = Some i" and "tasks s i = None"
  shows "updateTaskHandler s idStr (Decoded p) =
           (s, \<lparr>status = 404,
                 header = [(''Content-Type'', ''text/plain; charset=utf-8''),
                           (''X-Content-Type-Options'', ''nosniff'')],
                 body = Text (msg_not_found @ [CHR 0x0A])\<rparr>) \<and>
         deleteTaskHandler s idStr =
           (s, \<lparr>status = 404,
                 header = [(''Content-Type'', ''text/plain; charset=utf-8''),
                           (''X-Content-Type-Options'', ''nosniff'')],
                 body = Text (msg_not_found @ [CHR 0x0A])\<rparr>) \<and>
         fst (updateTaskHandler s idStr req) = s"
  using assms
  by (cases req) (simp_all add: updateTaskHandler_def deleteTaskHandler_def writer_defs)

theorem missing_id_no_mutation_witness:
  "Atoi ''99'' = Some 99 \<and>
   tasks \<lparr>tasks = [1 \<mapsto> \<lparr>ID = 1, Description = ''Original'', Done = False\<rparr>], nextID = 2\<rparr> 99 = None \<and>
   updateTaskHandler
     \<lparr>tasks = [1 \<mapsto> \<lparr>ID = 1, Description = ''Original'', Done = False\<rparr>], nextID = 2\<rparr> ''99''
     (Decoded \<lparr>up_description = Some ''x'', up_done = None\<rparr>) =
     (\<lparr>tasks = [1 \<mapsto> \<lparr>ID = 1, Description = ''Original'', Done = False\<rparr>], nextID = 2\<rparr>,
      \<lparr>status = 404,
       header = [(''Content-Type'', ''text/plain; charset=utf-8''),
                 (''X-Content-Type-Options'', ''nosniff'')],
       body = Text (msg_not_found @ [CHR 0x0A])\<rparr>) \<and>
   deleteTaskHandler
     \<lparr>tasks = [1 \<mapsto> \<lparr>ID = 1, Description = ''Original'', Done = False\<rparr>], nextID = 2\<rparr> ''99'' =
     (\<lparr>tasks = [1 \<mapsto> \<lparr>ID = 1, Description = ''Original'', Done = False\<rparr>], nextID = 2\<rparr>,
      \<lparr>status = 404,
       header = [(''Content-Type'', ''text/plain; charset=utf-8''),
                 (''X-Content-Type-Options'', ''nosniff'')],
       body = Text (msg_not_found @ [CHR 0x0A])\<rparr>)"
proof -
  have a: "Atoi ''99'' = Some 99" by (simp add: Atoi_def digit_of_def)
  have b: "tasks \<lparr>tasks = [1 \<mapsto> \<lparr>ID = 1, Description = ''Original'', Done = False\<rparr>], nextID = 2\<rparr> 99 = None"
    by simp
  from missing_id_no_mutation [OF a b] a b show ?thesis by blast
qed

section \<open>Deletion\<close>

text \<open>
  C4. When a task is stored under the id of the path, the delete handler answers
  \<^verbatim>\<open>204\<close> with no body and removes that entry: every other key and the counter stay
  as they were. In the store it leaves, fetching the same id answers \<^verbatim>\<open>404\<close>, and
  deleting it again answers \<^verbatim>\<open>404\<close> and changes nothing.
\<close>

theorem delete_removes_entry:
  assumes "Atoi idStr = Some i" and "tasks s i = Some t"
  shows "(let s' = s\<lparr>tasks := (tasks s)(i := None)\<rparr>;
              notFound = \<lparr>status = 404,
                          header = [(''Content-Type'', ''text/plain; charset=utf-8''),
                                    (''X-Content-Type-Options'', ''nosniff'')],
                          body = Text (msg_not_found @ [CHR 0x0A])\<rparr>
          in deleteTaskHandler s idStr = (s', \<lparr>status = 204, header = [], body = NoBody\<rparr>) \<and>
             getTaskHandler s' idStr = (s', notFound) \<and>
             deleteTaskHandler s' idStr = (s', notFound) \<and>
             nextID s' = nextID s \<and>
             (\<forall>k. k \<noteq> i \<longrightarrow> tasks s' k = tasks s k))"
  using assms
  by (simp add: deleteTaskHandler_def getTaskHandler_def writer_defs Let_def)

theorem delete_removes_entry_witness:
  "Atoi ''1'' = Some 1 \<and>
   tasks \<lparr>tasks = [1 \<mapsto> \<lparr>ID = 1, Description = ''Para Deletar'', Done = False\<rparr>], nextID = 2\<rparr> 1 =
     Some \<lparr>ID = 1, Description = ''Para Deletar'', Done = False\<rparr> \<and>
   deleteTaskHandler
     \<lparr>tasks = [1 \<mapsto> \<lparr>ID = 1, Description = ''Para Deletar'', Done = False\<rparr>], nextID = 2\<rparr> ''1'' =
     (\<lparr>tasks = Map.empty, nextID = 2\<rparr>, \<lparr>status = 204, header = [], body = NoBody\<rparr>) \<and>
   getTaskHandler \<lparr>tasks = Map.empty, nextID = 2\<rparr> ''1'' =
     (\<lparr>tasks = Map.empty, nextID = 2\<rparr>, http_Error new_writer msg_not_found 404) \<and>
   deleteTaskHandler \<lparr>tasks = Map.empty, nextID = 2\<rparr> ''1'' =
     (\<lparr>tasks = Map.empty, nextID = 2\<rparr>, http_Error new_writer msg_not_found 404)"
proof -
  have a: "Atoi ''1'' = Some 1" by (simp add: Atoi_def digit_of_def)
  have b: "tasks \<lparr>tasks = [1 \<mapsto> \<lparr>ID = 1, Description = ''Para Deletar'', Done = False\<rparr>], nextID = 2\<rparr> 1 =
     Some \<lparr>ID = 1, Description = ''Para Deletar'', Done = False\<rparr>" by simp
  from delete_removes_entry [OF a b] a b show ?thesis by (simp add: Let_def writer_defs)
qed

section \<open>Creation\<close>

text \<open>
  C5. When the create handler, given a non-empty description \<open>d\<close>, answers with id \<open>i\<close>,
  then fetching \<open>i\<close> from the store it leaves answers \<^verbatim>\<open>200\<close> with the task of id
  \<open>i\<close>, description \<open>d\<close> and done flag \<open>False\<close>; the create response itself is
  \<^verbatim>\<open>201\<close> with that same task, and \<open>i\<close> is the counter's value before the request.
\<close>

theorem get_after_create:
  assumes "d \<noteq> []"
    and "createTaskHandler s (Decoded \<lparr>cp_description = Some d\<rparr>) = (s', resp)"
    and "created_id resp = Some i"
    and "Atoi idStr = Some i"
  shows "getTaskHandler s' idStr =
           (s', \<lparr>status = 200, header = [(''Content-Type'', ''application/json'')],
                 body = Encoded (task_json \<lparr>ID = i, Description = d, Done = False\<rparr>)\<rparr>) \<and>
         status resp = 201 \<and>
         body resp = Encoded (task_json \<lparr>ID = i, Description = d, Done = False\<rparr>) \<and>
         i = nextID s"
  using assms
  by (auto simp: createTaskHandler_def getTaskHandler_def taskInput_Description_def
        created_id_def task_json_def writer_defs Let_def)

theorem get_after_create_witness:
  "''buy milk'' \<noteq> [] \<and>
   createTaskHandler init_store (Decoded \<lparr>cp_description = Some ''buy milk''\<rparr>) =
     (\<lparr>tasks = [1 \<mapsto> \<lparr>ID = 1, Description = ''buy milk'', Done = False\<rparr>], nextID = 2\<rparr>,
      \<lparr>status = 201, header = [(''Content-Type'', ''application/json'')],
       body = Encoded (task_json \<lparr>ID = 1, Description = ''buy milk'', Done = False\<rparr>)\<rparr>) \<and>
   created_id \<lparr>status = 201, header = [(''Content-Type'', ''application/json'')],
       body = Encoded (task_json \<lparr>ID = 1, Description = ''buy milk'', Done = False\<rparr>)\<rparr> = Some 1 \<and>
   Atoi ''1'' = Some 1 \<and>
   getTaskHandler
     \<lparr>tasks = [1 \<mapsto> \<lparr>ID = 1, Description = ''buy milk'', Done = False\<rparr>], nextID = 2\<rparr> ''1'' =
     (\<lparr>tasks = [1 \<mapsto> \<lparr>ID = 1, Description = ''buy milk'', Done = False\<rparr>], nextID = 2\<rparr>,
      \<lparr>status = 200, header = [(''Content-Type'', ''application/json'')],
       body = Encoded (task_json \<lparr>ID = 1, Description = ''buy milk'', Done = False\<rparr>)\<rparr>)"
proof -
  have a: "''buy milk'' \<noteq> []" by simp
  have b: "createTaskHandler init_store (Decoded \<lparr>cp_description = Some ''buy milk''\<rparr>) =
     (\<lparr>tasks = [1 \<mapsto> \<lparr>ID = 1, Description = ''buy milk'', Done = False\<rparr>], nextID = 2\<rparr>,
      \<lparr>status = 201, header = [(''Content-Type'', ''application/json'')],
       body = Encoded (task_json \<lparr>ID = 1, Description = ''buy milk'', Done = False\<rparr>)\<rparr>)"
    by (simp add: createTaskHandler_def taskInput_Description_def init_store_def writer_defs Let_def
          wrap_int_def)
  have c: "created_id \<lparr>status = 201, header = [(''Content-Type'', ''application/json'')],
       body = Encoded (task_json \<lparr>ID = 1, Description = ''buy milk'', Done = False\<rparr>)\<rparr> = Some 1"
    by (simp add: created_id_def task_json_def writer_defs)
  have d: "Atoi ''1'' = Some 1" by (simp add: Atoi_def digit_of_def)
  from get_after_create [OF a b c d] a b c d show ?thesis by blast
qed

text \<open>
  C7. When the payload of a create request decodes and its description is absent or the
  empty string, the handler answers \<^verbatim>\<open>400\<close> with the missing-description error and
  returns the store as it was, map and counter alike.
\<close>

theorem create_missing_description:
  assumes "cp_description p = None \<or> cp_description p = Some []"
  shows "createTaskHandler s (Decoded p) =
           (s, \<lparr>status = 400,
                 header = [(''Content-Type'', ''text/plain; charset=utf-8''),
                           (''X-Content-Type-Options'', ''nosniff'')],
                 body = Text (msg_missing_description @ [CHR 0x0A])\<rparr>)"
  using assms by (auto simp: createTaskHandler_def taskInput_Description_def writer_defs)

theorem create_missing_description_witness:
  "(cp_description \<lparr>cp_description = None\<rparr> = None \<or>
    cp_description \<lparr>cp_description = None\<rparr> = Some []) \<and>
   createTaskHandler init_store (Decoded \<lparr>cp_description = None\<rparr>) =
     (init_store, \<lparr>status = 400,
                   header = [(''Content-Type'', ''text/plain; charset=utf-8''),
                             (''X-Content-Type-Options'', ''nosniff'')],
                   body = Text (msg_missing_description @ [CHR 0x0A])\<rparr>)"
proof -
  have a: "cp_description \<lparr>cp_description = None\<rparr> = None \<or>
    cp_description \<lparr>cp_description = None\<rparr> = Some []" by simp
  from create_missing_description [OF a] a show ?thesis by blast
qed

section \<open>Listing\<close>

text \<open>
  The loop of the list handler, for the keys in the order given: it appends the task of
  every key that is in the map to the (non-nil) slice it started from.
\<close>

lemma range_tasks_map_filter:
  "range_tasks m ks (Some acc) = Some (acc @ List.map_filter m ks)"
  by (induction ks arbitrary: acc) (auto simp: List.map_filter_simps split: option.splits)

lemma count_map_filter:
  "distinct ks \<Longrightarrow> count_list (List.map_filter m ks) t = card {k \<in> set ks. m k = Some t}"
proof (induction ks)
  case Nil
  then show ?case by (simp add: List.map_filter_simps)
next
  case (Cons a ks)
  have fin: "finite {k \<in> set ks. m k = Some t}" by simp
  show ?case
  proof (cases "m a = Some t")
    case True
    have "{k \<in> set (a # ks). m k = Some t} = insert a {k \<in> set ks. m k = Some t}"
      using True by auto
    moreover have "a \<notin> {k \<in> set ks. m k = Some t}" using Cons.prems by simp
    ultimately have "card {k \<in> set (a # ks). m k = Some t} = Suc (card {k \<in> set ks. m k = Some t})"
      using fin by simp
    with Cons True show ?thesis by (simp add: List.map_filter_simps)
  next
    case False
    then have "{k \<in> set (a # ks). m k = Some t} = {k \<in> set ks. m k = Some t}" by auto
    with Cons False show ?thesis by (cases "m a") (simp_all add: List.map_filter_simps)
  qed
qed

lemma set_map_filter: "set (List.map_filter m ks) = {t. \<exists>k \<in> set ks. m k = Some t}"
  by (induction ks) (auto simp: List.map_filter_simps split: option.splits)

lemma length_map_filter_dom:
  "set ks \<subseteq> dom m \<Longrightarrow> length (List.map_filter m ks) = length ks"
  by (induction ks) (auto simp: List.map_filter_simps split: option.splits)

lemma distinct_map_filter_keyed:
  "distinct ks \<Longrightarrow> (\<And>k t. m k = Some t \<Longrightarrow> ID t = k) \<Longrightarrow> distinct (List.map_filter m ks)"
proof (induction ks)
  case Nil
  then show ?case by (simp add: List.map_filter_simps)
next
  case (Cons a ks)
  show ?case
  proof (cases "m a")
    case None
    with Cons show ?thesis by (simp add: List.map_filter_simps)
  next
    case (Some t)
    have "t \<notin> set (List.map_filter m ks)"
    proof
      assume "t \<in> set (List.map_filter m ks)"
      then obtain k where "k \<in> set ks" "m k = Some t" by (auto simp: set_map_filter)
      with Cons.prems(2) [of k t] Cons.prems(2) [of a t] Some Cons.prems(1) show False by auto
    qed
    with Cons Some show ?thesis by (simp add: List.map_filter_simps)
  qed
qed

text \<open>
  C6. Whatever order the traversal of the map takes (any list that names every key of
  the store once), the list handler answers \<^verbatim>\<open>200\<close> with an array that holds every
  task as many times as there are keys storing it, that is once per entry, and nothing
  else: its elements are the values of the map and its length is the number of keys. In
  a store keyed by id, as every reachable store is, no task is listed twice. The body is
  never \<^verbatim>\<open>null\<close>, and on the empty store it is the empty array. The store is returned
  as it was.
\<close>

theorem list_returns_store:
  assumes "distinct order" and "set order = dom (tasks s)"
  shows "getTasksHandler s order =
           (s, \<lparr>status = 200, header = [(''Content-Type'', ''application/json'')],
                 body = Encoded (JArr (map task_json (List.map_filter (tasks s) order)))\<rparr>) \<and>
         (\<forall>t. count_list (List.map_filter (tasks s) order) t = card {k. tasks s k = Some t}) \<and>
         set (List.map_filter (tasks s) order) = ran (tasks s) \<and>
         length (List.map_filter (tasks s) order) = card (dom (tasks s)) \<and>
         (keyed_by_id s \<longrightarrow> distinct (List.map_filter (tasks s) order)) \<and>
         (tasks s = Map.empty \<longrightarrow> body (snd (getTasksHandler s order)) = Encoded (JArr [])) \<and>
         body (snd (getTasksHandler s order)) \<noteq> Encoded JNull"
proof -
  have h: "getTasksHandler s order =
           (s, \<lparr>status = 200, header = [(''Content-Type'', ''application/json'')],
                 body = Encoded (JArr (map task_json (List.map_filter (tasks s) order)))\<rparr>)"
    by (simp add: getTasksHandler_def make_slice_def range_tasks_map_filter writer_defs)
  have c: "count_list (List.map_filter (tasks s) order) t = card {k. tasks s k = Some t}" for t
  proof -
    have "{k \<in> set order. tasks s k = Some t} = {k. tasks s k = Some t}"
      using assms(2) by auto
    with count_map_filter [OF assms(1), of "tasks s" t] show ?thesis by simp
  qed
  have st: "set (List.map_filter (tasks s) order) = ran (tasks s)"
    using assms(2) by (auto simp: set_map_filter ran_def)
  have len: "length (List.map_filter (tasks s) order) = card (dom (tasks s))"
    using length_map_filter_dom [of order "tasks s"] assms distinct_card [of order] by simp
  have d: "keyed_by_id s \<longrightarrow> distinct (List.map_filter (tasks s) order)"
    using distinct_map_filter_keyed [OF assms(1), of "tasks s"] by (auto simp: keyed_by_id_def)
  have e: "tasks s = Map.empty \<longrightarrow> body (snd (getTasksHandler s order)) = Encoded (JArr [])"
    using assms(2) h by (auto simp: List.map_filter_simps)
  from h c st len d e show ?thesis by simp
qed

text \<open>
  Two instances: the store of two tasks traversed from key 2 to key 1, and the initial
  store.
\<close>

theorem list_returns_store_witness:
  "distinct [2, 1 :: int] \<and>
   set [2, 1] = dom (tasks \<lparr>tasks = [1 \<mapsto> \<lparr>ID = 1, Description = ''Tarefa 1'', Done = False\<rparr>,
                                      2 \<mapsto> \<lparr>ID = 2, Description = ''Tarefa 2'', Done = True\<rparr>],
                             nextID = 3\<rparr>) \<and>
   getTasksHandler \<lparr>tasks = [1 \<mapsto> \<lparr>ID = 1, Description = ''Tarefa 1'', Done = False\<rparr>,
                             2 \<mapsto> \<lparr>ID = 2, Description = ''Tarefa 2'', Done = True\<rparr>],
                    nextID = 3\<rparr> [2, 1] =
     (\<lparr>tasks = [1 \<mapsto> \<lparr>ID = 1, Description = ''Tarefa 1'', Done = False\<rparr>,
                2 \<mapsto> \<lparr>ID = 2, Description = ''Tarefa 2'', Done = True\<rparr>],
       nextID = 3\<rparr>,
      \<lparr>status = 200, header = [(''Content-Type'', ''application/json'')],
       body = Encoded (JArr [task_json \<lparr>ID = 2, Description = ''Tarefa 2'', Done = True\<rparr>,
                             task_json \<lparr>ID = 1, Description = ''Tarefa 1'', Done = False\<rparr>])\<rparr>) \<and>
   keyed_by_id \<lparr>tasks = [1 \<mapsto> \<lparr>ID = 1, Description = ''Tarefa 1'', Done = False\<rparr>,
                         2 \<mapsto> \<lparr>ID = 2, Description = ''Tarefa 2'', Done = True\<rparr>],
                nextID = 3\<rparr> \<and>
   distinct [\<lparr>ID = 2, Description = ''Tarefa 2'', Done = True\<rparr>,
             \<lparr>ID = 1, Description = ''Tarefa 1'', Done = False\<rparr>] \<and>
   distinct ([] :: int list) \<and> set [] = dom (tasks init_store) \<and>
   getTasksHandler init_store [] =
     (init_store, \<lparr>status = 200, header = [(''Content-Type'', ''application/json'')],
                   body = Encoded (JArr [])\<rparr>)"
proof -
  let ?s = "\<lparr>tasks = [1 \<mapsto> \<lparr>ID = 1, Description = ''Tarefa 1'', Done = False\<rparr>,
                       2 \<mapsto> \<lparr>ID = 2, Description = ''Tarefa 2'', Done = True\<rparr>],
              nextID = 3\<rparr>"
  have a: "distinct [2, 1 :: int]" by simp
  have b: "set [2, 1] = dom (tasks ?s)" by auto
  have k: "keyed_by_id ?s" by (auto simp: keyed_by_id_def split: if_splits)
  have a0: "distinct ([] :: int list)" by simp
  have b0: "set [] = dom (tasks init_store)" by (simp add: init_store_def)
  from list_returns_store [OF a b] list_returns_store [OF a0 b0] a b k a0 b0
  show ?thesis by (simp add: List.map_filter_simps)
qed

section \<open>Descriptions\<close>

text \<open>
  From a store whose descriptions are all non-empty, a request leaves such a store
  exactly when it is not an update that writes the empty string into a task the store
  holds. An update carrying the empty string that is answered \<^verbatim>\<open>400\<close> or
  \<^verbatim>\<open>404\<close> stores nothing.
\<close>

lemma serve_descriptions_nonempty:
  assumes "descriptions_nonempty s"
  shows "descriptions_nonempty (fst (serve s r)) \<longleftrightarrow> \<not> stores_empty_description s r"
proof (cases r)
  case (PutTask idStr req)
  show ?thesis
  proof (cases req)
    case DecodeError
    with PutTask assms show ?thesis
      by (simp add: updateTaskHandler_def split: option.splits)
  next
    case (Decoded p)
    show ?thesis
    proof (cases "Atoi idStr")
      case None
      with PutTask Decoded assms show ?thesis by (simp add: updateTaskHandler_def)
    next
      case (Some i)
      show ?thesis
      proof (cases "tasks s i")
        case None
        with PutTask Decoded Some assms show ?thesis by (simp add: updateTaskHandler_def)
      next
        case (Some t)
        from assms Some have t: "Description t \<noteq> []"
          by (simp add: descriptions_nonempty_def)
        show ?thesis
        proof (cases "up_description p = Some []")
          case True
          with PutTask Decoded \<open>Atoi idStr = Some i\<close> Some
          have "map_option Description (tasks (fst (serve s r)) i) = Some []"
            by (cases "up_done p") (simp_all add: updateTaskHandler_def Let_def)
          then have "\<not> descriptions_nonempty (fst (serve s r))"
            by (auto simp: descriptions_nonempty_def)
          with PutTask Decoded \<open>Atoi idStr = Some i\<close> Some True show ?thesis by simp
        next
          case False
          with PutTask Decoded \<open>Atoi idStr = Some i\<close> Some assms t show ?thesis
            by (cases "up_description p"; cases "up_done p")
               (auto simp: updateTaskHandler_def descriptions_nonempty_def Let_def)
        qed
      qed
    qed
  qed
qed (use assms in \<open>auto simp: handler_defs descriptions_nonempty_def Let_def
       split: decoded.splits option.splits if_splits\<close>)

lemma all_upto_Suc: "(\<forall>k \<le> Suc n. P k) \<longleftrightarrow> P 0 \<and> (\<forall>k \<le> n. P (Suc k))"
proof
  assume a: "\<forall>k \<le> Suc n. P k"
  then show "P 0 \<and> (\<forall>k \<le> n. P (Suc k))" by simp
next
  assume b: "P 0 \<and> (\<forall>k \<le> n. P (Suc k))"
  show "\<forall>k \<le> Suc n. P k"
  proof (intro allI impI)
    fix k assume "k \<le> Suc n"
    with b show "P k" by (cases k) simp_all
  qed
qed

lemma run_descriptions_nonempty:
  "(\<forall>k \<le> length rs. descriptions_nonempty (fst (run s (take k rs)))) \<longleftrightarrow>
     descriptions_nonempty s \<and> no_empty_update s rs"
proof (induction rs arbitrary: s)
  case Nil
  then show ?case by simp
next
  case (Cons r rs)
  have "(\<forall>k \<le> length (r # rs). descriptions_nonempty (fst (run s (take k (r # rs))))) \<longleftrightarrow>
        descriptions_nonempty s \<and>
        (\<forall>k \<le> length rs. descriptions_nonempty (fst (run (fst (serve s r)) (take k rs))))"
    by (simp add: all_upto_Suc fst_run_Cons del: run.simps(2))
  also have "\<dots> \<longleftrightarrow> descriptions_nonempty s \<and>
        descriptions_nonempty (fst (serve s r)) \<and> no_empty_update (fst (serve s r)) rs"
    by (simp only: Cons.IH)
  also have "\<dots> \<longleftrightarrow> descriptions_nonempty s \<and> no_empty_update s (r # rs)"
    using serve_descriptions_nonempty [of s r] by auto
  finally show ?case .
qed

lemma run_take_all: "run s (take (length rs) rs) = run s rs"
  by simp

text \<open>
  C8, as the code has it. The create handler stores only non-empty descriptions, and the
  update handler stores the description the payload carries without looking at it. So
  every store reached along a run from the initial store has only non-empty
  descriptions if and only if no request of the run is an update that carries the empty
  string as description and reaches a task the store holds at that moment (a valid id of
  a task that exists); in particular the store at the end of such a run has only
  non-empty descriptions. And an update whose payload carries the empty string, on a
  task that exists, stores the empty string as that task's description.
\<close>

theorem descriptions_stay_nonempty:
  "((\<forall>k \<le> length rs. descriptions_nonempty (fst (run init_store (take k rs)))) \<longleftrightarrow>
      no_empty_update init_store rs) \<and>
   (no_empty_update init_store rs \<longrightarrow> descriptions_nonempty (fst (run init_store rs))) \<and>
   (Atoi idStr = Some i \<and> tasks s i = Some t \<longrightarrow>
      tasks (fst (updateTaskHandler s idStr (Decoded \<lparr>up_description = Some [], up_done = dn\<rparr>))) i =
        Some \<lparr>ID = ID t, Description = [], Done = (case dn of None \<Rightarrow> Done t | Some b \<Rightarrow> b)\<rparr>)"
proof -
  have init: "descriptions_nonempty init_store"
    by (simp add: descriptions_nonempty_def init_store_def)
  have a: "(\<forall>k \<le> length rs. descriptions_nonempty (fst (run init_store (take k rs)))) \<longleftrightarrow>
      no_empty_update init_store rs"
    using run_descriptions_nonempty [of rs init_store] init by simp
  have a': "no_empty_update init_store rs \<longrightarrow> descriptions_nonempty (fst (run init_store rs))"
  proof
    assume "no_empty_update init_store rs"
    with a have "descriptions_nonempty (fst (run init_store (take (length rs) rs)))" by blast
    then show "descriptions_nonempty (fst (run init_store rs))" by (simp only: run_take_all)
  qed
  have b: "Atoi idStr = Some i \<and> tasks s i = Some t \<longrightarrow>
      tasks (fst (updateTaskHandler s idStr (Decoded \<lparr>up_description = Some [], up_done = dn\<rparr>))) i =
        Some \<lparr>ID = ID t, Description = [], Done = (case dn of None \<Rightarrow> Done t | Some b \<Rightarrow> b)\<rparr>"
    by (cases t; cases dn) (simp_all add: updateTaskHandler_def Let_def)
  from a a' b show ?thesis by blast
qed

text \<open>
  An instance: after a creation, two updates carry the empty string, one to an id that
  is not in the store and one to a path that is no integer; they are answered
  \<^verbatim>\<open>404\<close> and \<^verbatim>\<open>400\<close>, and the descriptions stay non-empty. The second part, on
  a store that holds task 1.
\<close>

theorem descriptions_stay_nonempty_witness:
  "no_empty_update init_store
     [PostTask (Decoded \<lparr>cp_description = Some ''a''\<rparr>),
      PutTask ''99'' (Decoded \<lparr>up_description = Some [], up_done = None\<rparr>),
      PutTask ''abc'' (Decoded \<lparr>up_description = Some [], up_done = None\<rparr>),
      PutTask ''1'' (Decoded \<lparr>up_description = Some ''b'', up_done = None\<rparr>)] \<and>
   descriptions_nonempty
     (fst (run init_store
       [PostTask (Decoded \<lparr>cp_description = Some ''a''\<rparr>),
        PutTask ''99'' (Decoded \<lparr>up_description = Some [], up_done = None\<rparr>),
        PutTask ''abc'' (Decoded \<lparr>up_description = Some [], up_done = None\<rparr>),
        PutTask ''1'' (Decoded \<lparr>up_description = Some ''b'', up_done = None\<rparr>)])) \<and>
   tasks (fst (run init_store
       [PostTask (Decoded \<lparr>cp_description = Some ''a''\<rparr>),
        PutTask ''99'' (Decoded \<lparr>up_description = Some [], up_done = None\<rparr>),
        PutTask ''abc'' (Decoded \<lparr>up_description = Some [], up_done = None\<rparr>),
        PutTask ''1'' (Decoded \<lparr>up_description = Some ''b'', up_done = None\<rparr>)])) 1 =
     Some \<lparr>ID = 1, Description = ''b'', Done = False\<rparr> \<and>
   Atoi ''1'' = Some 1 \<and>
   tasks \<lparr>tasks = [1 \<mapsto> \<lparr>ID = 1, Description = ''a'', Done = True\<rparr>], nextID = 2\<rparr> 1 =
     Some \<lparr>ID = 1, Description = ''a'', Done = True\<rparr> \<and>
   tasks (fst (updateTaskHandler
                 \<lparr>tasks = [1 \<mapsto> \<lparr>ID = 1, Description = ''a'', Done = True\<rparr>], nextID = 2\<rparr> ''1''
                 (Decoded \<lparr>up_description = Some [], up_done = None\<rparr>))) 1 =
     Some \<lparr>ID = 1, Description = [], Done = True\<rparr>"
proof -
  let ?rs = "[PostTask (Decoded \<lparr>cp_description = Some ''a''\<rparr>),
      PutTask ''99'' (Decoded \<lparr>up_description = Some [], up_done = None\<rparr>),
      PutTask ''abc'' (Decoded \<lparr>up_description = Some [], up_done = None\<rparr>),
      PutTask ''1'' (Decoded \<lparr>up_description = Some ''b'', up_done = None\<rparr>)]"
  let ?s = "\<lparr>tasks = [1 \<mapsto> \<lparr>ID = 1, Description = ''a'', Done = True\<rparr>], nextID = 2\<rparr>"
  have a: "no_empty_update init_store ?rs"
    by (simp add: init_store_def handler_defs writer_defs Atoi_def digit_of_def Let_def
          wrap_int_def)
  have b: "tasks (fst (run init_store ?rs)) 1 = Some \<lparr>ID = 1, Description = ''b'', Done = False\<rparr>"
    by (simp add: init_store_def handler_defs writer_defs Atoi_def digit_of_def Let_def
          wrap_int_def)
  have c: "Atoi ''1'' = Some 1" by (simp add: Atoi_def digit_of_def)
  have d: "tasks ?s 1 = Some \<lparr>ID = 1, Description = ''a'', Done = True\<rparr>" by simp
  from descriptions_stay_nonempty [of ?rs "''1''" 1 ?s "\<lparr>ID = 1, Description = ''a'', Done = True\<rparr>" None]
    a b c d
  show ?thesis by simp
qed

text \<open>
  C8 as the claim states it fails: a task is created with description \<^verbatim>\<open>a\<close> and then
  updated with a payload whose description is the empty string. The store then holds
  task 1 with an empty description.
\<close>

theorem update_stores_empty_description:
  "tasks (fst (run init_store
       [PostTask (Decoded \<lparr>cp_description = Some ''a''\<rparr>),
        PutTask ''1'' (Decoded \<lparr>up_description = Some [], up_done = None\<rparr>)])) 1 =
     Some \<lparr>ID = 1, Description = [], Done = False\<rparr> \<and>
   \<not> descriptions_nonempty (fst (run init_store
       [PostTask (Decoded \<lparr>cp_description = Some ''a''\<rparr>),
        PutTask ''1'' (Decoded \<lparr>up_description = Some [], up_done = None\<rparr>)]))"
proof -
  let ?rs = "[PostTask (Decoded \<lparr>cp_description = Some ''a''\<rparr>),
        PutTask ''1'' (Decoded \<lparr>up_description = Some [], up_done = None\<rparr>)]"
  have b: "tasks (fst (run init_store ?rs)) 1 = Some \<lparr>ID = 1, Description = [], Done = False\<rparr>"
    by (simp add: init_store_def handler_defs writer_defs Atoi_def digit_of_def Let_def
          wrap_int_def)
  then have "\<not> descriptions_nonempty (fst (run init_store ?rs))"
    unfolding descriptions_nonempty_def by (metis Task.select_convs(2))
  with b show ?thesis by blast
qed

section \<open>Status, body and content type of the responses\<close>

text \<open>The three ways a handler fills its writer, read back field by field.\<close>

lemma http_Error_new_writer:
  "status (http_Error new_writer msg code) = code"
  "body (http_Error new_writer msg code) = Text (msg @ [CHR 0x0A])"
  "Header_Get (http_Error new_writer msg code) ''Content-Type'' = Some ''text/plain; charset=utf-8''"
  by (simp_all add: writer_defs)

lemma Encode_new_writer:
  "status (Encode v (WriteHeader code (Header_Set ''Content-Type'' ''application/json'' new_writer))) = code"
  "body (Encode v (WriteHeader code (Header_Set ''Content-Type'' ''application/json'' new_writer))) = Encoded v"
  "Header_Get (Encode v (WriteHeader code (Header_Set ''Content-Type'' ''application/json'' new_writer)))
     ''Content-Type'' = Some ''application/json''"
  by (simp_all add: writer_defs)

lemma WriteHeader_new_writer:
  "status (WriteHeader code new_writer) = code"
  "body (WriteHeader code new_writer) = NoBody"
  "Header_Get (WriteHeader code new_writer) ''Content-Type'' = None"
  by (simp_all add: writer_defs)

lemmas response_simps =
  http_Error_new_writer Encode_new_writer WriteHeader_new_writer is_2xx_def
  StatusOK_def StatusCreated_def StatusNoContent_def StatusBadRequest_def StatusNotFound_def

lemma error_bodies:
  \<open>msg_invalid_body = error_object ''Invalid request body''\<close>
  \<open>msg_missing_description = error_object ''Missing 'description' in request body''\<close>
  \<open>msg_invalid_id = error_object ''Invalid task ID''\<close>
  \<open>msg_not_found = error_object ''Task not found''\<close>
  by (simp_all add: error_object_def msg_invalid_body_def msg_missing_description_def
        msg_invalid_id_def msg_not_found_def)

text \<open>
  C9, evaluated on the code. Every response is of one of three kinds. A response with a
  2xx status is either the \<^verbatim>\<open>204\<close> of a deletion, with no body and no content type,
  or carries an encoded JSON value with \<^verbatim>\<open>Content-Type: application/json\<close>. Every
  other response has status \<^verbatim>\<open>400\<close> or \<^verbatim>\<open>404\<close>, leaves the store as it was, and
  its body is one of the four error objects followed by a newline; but it is written by
  \<^verbatim>\<open>http.Error\<close>, so its content type is \<^verbatim>\<open>text/plain; charset=utf-8\<close>, not
  \<^verbatim>\<open>application/json\<close>.
\<close>

theorem responses_content_type:
  assumes "serve s r = (s', resp)"
  shows "if is_2xx (status resp)
         then (status resp = 204 \<and> body resp = NoBody \<and> Header_Get resp ''Content-Type'' = None) \<or>
              ((\<exists>v. body resp = Encoded v) \<and>
               Header_Get resp ''Content-Type'' = Some ''application/json'')
         else s' = s \<and>
              (status resp = 400 \<or> status resp = 404) \<and>
              body resp \<in> {Text (msg_invalid_body @ [CHR 0x0A]),
                            Text (msg_missing_description @ [CHR 0x0A]),
                            Text (msg_invalid_id @ [CHR 0x0A]),
                            Text (msg_not_found @ [CHR 0x0A])} \<and>
              Header_Get resp ''Content-Type'' = Some ''text/plain; charset=utf-8''"
proof (cases r)
  case Healthz
  with assms show ?thesis by (auto simp: healthCheckHandler_def response_simps)
next
  case (PostTask req)
  with assms show ?thesis
    by (cases req) (auto simp: createTaskHandler_def response_simps Let_def split: if_splits)
next
  case (GetTasks order)
  with assms show ?thesis by (auto simp: getTasksHandler_def response_simps Let_def)
next
  case (GetTask idStr)
  with assms show ?thesis
    by (cases "Atoi idStr"; cases "tasks s (the (Atoi idStr))")
       (auto simp: getTaskHandler_def response_simps)
next
  case (PutTask idStr req)
  with assms show ?thesis
    by (cases "Atoi idStr"; cases req; cases "tasks s (the (Atoi idStr))")
       (auto simp: updateTaskHandler_def response_simps Let_def)
next
  case (DeleteTask idStr)
  with assms show ?thesis
    by (cases "Atoi idStr"; cases "tasks s (the (Atoi idStr))")
       (auto simp: deleteTaskHandler_def response_simps)
qed

text \<open>
  The request \<^verbatim>\<open>GET /tasks/abc\<close> on the initial store: status \<^verbatim>\<open>400\<close>, the
  invalid-id error object as body, and a plain-text content type.
\<close>

theorem responses_content_type_witness:
  \<open>serve init_store (GetTask ''abc'') =
     (init_store,
      \<lparr>status = 400,
       header = [(''Content-Type'', ''text/plain; charset=utf-8''),
                 (''X-Content-Type-Options'', ''nosniff'')],
       body = Text (''{"error": "Invalid task ID"}'' @ [CHR 0x0A])\<rparr>) \<and>
   Header_Get (snd (serve init_store (GetTask ''abc''))) ''Content-Type'' =
     Some ''text/plain; charset=utf-8''\<close>
proof -
  have a: "serve init_store (GetTask ''abc'') =
     (init_store,
      \<lparr>status = 400,
       header = [(''Content-Type'', ''text/plain; charset=utf-8''),
                 (''X-Content-Type-Options'', ''nosniff'')],
       body = Text (msg_invalid_id @ [CHR 0x0A])\<rparr>)"
    by (simp add: getTaskHandler_def Atoi_def digit_of_def writer_defs)
  from responses_content_type [OF a] a show ?thesis
    by (simp add: is_2xx_def msg_invalid_id_def)
qed

end
